theory Spec2Isabelle
  imports Main "HOL-Library.Word" "HOL-Library.Sublist" "HOL-Library.AList"
begin

unbundle bit_operations_syntax

section \<open>Data model of the Master engine (src/unnamed/part_000)\<close>

text \<open>
  The engine is the JavaScript class \<open>Master\<close>. It is single threaded and event driven:
  its state is touched by a caller invoking an operation, by the serial port calling back
  after a write, by the serial port delivering data, and by a response timer firing.
  Each of these is one \<open>event\<close> below; promise reactions (the \<open>then\<close> callbacks and the
  code after an \<open>await\<close>) run as microtasks before the next event and are part of the
  step of the event that settled the promise.

  Bytes of a \<open>Buffer\<close> are 8-bit words; JavaScript numbers are modelled as \<open>int\<close>
  (the operations are only ever given integers).
\<close>

type_synonym byte = "8 word"

text \<open>
  The JavaScript values that flow through the promises: \<open>undefined\<close>, a number, and the
  result object of \<open>getMultiplePositions\<close>, as the list of its properties (property
  name = channel number). An assignment \<open>result[channel] = v\<close> is \<open>AList.update\<close>: it
  replaces the value of a property that exists and adds the property otherwise.
\<close>

datatype jsval =
    JUndefined
  | JNum int
  | JObject "(int \<times> jsval) list"

text \<open>
  The source raises plain \<open>Error\<close> objects that differ in their message only; one
  constructor per message:
  \<^item> \<open>SerialPortClosed\<close>: \<open>Error('Serial port closed.')\<close> of \<open>request\<close>;
  \<^item> \<open>WriteError m\<close>: the error object the serial port passed to the write callback;
  \<^item> \<open>ResponseTimeout\<close>: \<open>Error('Response timeout.')\<close> of the timer in \<open>requestAndResponse\<close>;
  \<^item> \<open>GetPositionFailed device channel err\<close>: the message
    "Failed to get position for channel device:channel: err.message" of \<open>getMultiplePositions\<close>;
  \<^item> \<open>TargetMismatch device channel target actual\<close>: the message
    "Expected the target of device:channel to be target, got: actual." of the two
    verifying operations.
\<close>

datatype error =
    SerialPortClosed
  | WriteError string
  | ResponseTimeout
  | GetPositionFailed int int error
  | TargetMismatch int jsval jsval jsval

text \<open>
  A promise that is still pending is represented by what will happen when it settles
  (its reactions, defunctionalised):
  \<^item> \<open>Caller n\<close>: the promise returned to the caller of the \<open>n\<close>-th operation;
  \<^item> \<open>ThenGetPosition device channel target k\<close>: in \<open>trySetTarget\<close>, the promise of
    \<open>setTarget\<close> with its reaction \<open>.then(() => this.getPosition(options))\<close>;
  \<^item> \<open>ThenCheckTarget device channel target k\<close>: in \<open>trySetTarget\<close>, the second
    \<open>.then\<close>, which compares the position read back;
  \<^item> \<open>AwaitPosition device channel rest result k\<close>: in \<open>getMultiplePositions\<close>, the
    loop suspended at \<open>await this.getPosition({device, channel})\<close> with the channels not
    yet visited and the result object built so far;
  \<^item> \<open>ThenGetMultiplePositions device channels targets k\<close> and
    \<open>ThenCheckTargets device targets k\<close>: the two \<open>.then\<close> of \<open>trySetMultipleTargets\<close>.
\<close>

datatype cont =
    Caller nat
  | ThenGetPosition int int int cont
  | ThenCheckTarget int int int cont
  | AwaitPosition int int "int list" "(int \<times> jsval) list" cont
  | ThenGetMultiplePositions int "int list" "int list" cont
  | ThenCheckTargets int "int list" cont

text \<open>
  The \<open>done\<close> callback given to \<open>request\<close>: the closure of \<open>requestAndForget\<close> (which
  holds \<open>resolve\<close> and \<open>reject\<close> of the promise) or the closure of
  \<open>requestAndResponse\<close> (which holds the response length and the callback of
  \<open>getPosition\<close>).
\<close>

datatype callback =
    RequestAndForget cont
  | RequestAndResponse nat cont

record request =
  frame :: "byte list"
  callback :: callback

text \<open>
  A response handler object. \<open>hid\<close> is its identity (\<open>indexOf\<close> compares objects by
  identity); \<open>done_cb\<close> is the \<open>done\<close> callback (of \<open>getPosition\<close>) its own callback forwards to.
  Its \<open>timeout\<close> field is the timer of the same identity in \<open>timers\<close>.
\<close>

record responseHandler =
  hid :: nat
  responseLength :: nat
  done_cb :: cont

text \<open>
  The state. The first group are the fields of \<open>Master\<close>; \<open>isOpen\<close> is
  \<open>this.serialPort.isOpen\<close>. The second group is the environment the engine talks to:
  the writes handed to the serial port whose callback has not run yet (each closure holds
  its \<open>request\<close>), and the armed timers (each closure holds its handler). The third
  group are logs for stating properties: the frames passed to \<open>serialPort.write\<close>, the
  frames pushed on the request queue, and the promises of the callers settled so far.
\<close>

record master =
  responseTimeout :: nat
  isOpen :: bool
  requestQueue :: "request list"
  responseHandlers :: "responseHandler list"
  responseBuffer :: "byte list"
  pendingWrites :: "request list"
  timers :: "responseHandler list"
  nextHandler :: nat
  nextOp :: nat
  written :: "byte list list"
  enqueued :: "byte list list"
  settled :: "(nat \<times> (error + jsval)) list"

text \<open>
  The constructor: \<open>options.responseTimeout || 100\<close> (an absent option counts as 0),
  empty queue, list and buffer. The methods \<open>ready\<close> and \<open>isOpen\<close> and the handlers that
  re-emit the port's \<open>error\<close>, \<open>open\<close> and \<open>close\<close> events do not touch the state and are
  not modelled.
\<close>

definition Master :: "nat \<Rightarrow> bool \<Rightarrow> master" where
  "Master optionsResponseTimeout serialPortIsOpen =
     \<lparr> responseTimeout = (if optionsResponseTimeout = 0 then 100 else optionsResponseTimeout),
       isOpen = serialPortIsOpen,
       requestQueue = [],
       responseHandlers = [],
       responseBuffer = [],
       pendingWrites = [],
       timers = [],
       nextHandler = 0,
       nextOp = 0,
       written = [],
       enqueued = [],
       settled = [] \<rparr>"

section \<open>Command codec\<close>

text \<open>
  \<open>Buffer.from([...])\<close> and an assignment to a buffer index store the number modulo 256.
  \<open>target & 0x7F\<close> and \<open>(target >> 7) & 0x7F\<close> read bits 0..6 and 7..13 of the
  number; JavaScript first wraps the number to 32 bits, which leaves these bits as they
  are, so the operations on \<open>int\<close> give the same bytes.
\<close>

definition setTarget_frame :: "int \<Rightarrow> int \<Rightarrow> int \<Rightarrow> byte list" where
  "setTarget_frame device channel target =
     (let targetLow = target AND 0x7F;
          targetHigh = (drop_bit 7 target) AND 0x7F
      in map word_of_int [0xAA, device, 0x04, channel, targetLow, targetHigh])"

definition setMultipleTargets_frame :: "int \<Rightarrow> int \<Rightarrow> int list \<Rightarrow> byte list" where
  "setMultipleTargets_frame device channel targets =
     map word_of_int [0xAA, device, 0x1F, int (length targets), channel]
     @ concat (map (\<lambda>target. map word_of_int [target AND 0x7F, (drop_bit 7 target) AND 0x7F]) targets)"

definition getPosition_frame :: "int \<Rightarrow> int \<Rightarrow> byte list" where
  "getPosition_frame device channel = map word_of_int [0xAA, device, 0x10, channel]"

text \<open>\<open>((responseFrame[1] << 8) + responseFrame[0]) & 0xFFFF\<close> on a two-byte frame.\<close>

definition position :: "byte list \<Rightarrow> int" where
  "position responseFrame =
     (push_bit 8 (uint (responseFrame ! 1)) + uint (responseFrame ! 0)) AND 0xFFFF"

section \<open>Request queue\<close>

text \<open>
  \<open>writeNextRequest\<close>: nothing on an empty queue; otherwise the head's frame goes to
  \<open>serialPort.write\<close>, whose callback runs later (event \<open>WriteDone\<close>).
\<close>

definition writeNextRequest :: "master \<Rightarrow> master" where
  "writeNextRequest s =
     (case requestQueue s of
        [] \<Rightarrow> s
      | request # _ \<Rightarrow>
          s\<lparr> written := written s @ [frame request],
             pendingWrites := pendingWrites s @ [request] \<rparr>)"

text \<open>
  \<open>request\<close>. \<open>Inl err\<close>: the port is closed and \<open>done(err)\<close> was called at once;
  \<open>Inr s'\<close>: the request was pushed, and written if it is the only one.
\<close>

definition request :: "byte list \<Rightarrow> callback \<Rightarrow> master \<Rightarrow> error + master" where
  "request requestFrame cb s =
     (if \<not> isOpen s then Inl SerialPortClosed
      else
        let s1 = s\<lparr> requestQueue := requestQueue s @ [\<lparr> frame = requestFrame, callback = cb \<rparr>],
                    enqueued := enqueued s @ [requestFrame] \<rparr>
        in Inr (if length (requestQueue s1) = 1 then writeNextRequest s1 else s1))"

text \<open>
  The continuation \<open>complete\<close> handed to a request's callback after a successful write:
  \<open>shift\<close> (which leaves an empty array empty), then the next write if a request is left.
\<close>

definition complete :: "master \<Rightarrow> master" where
  "complete s =
     (let s1 = s\<lparr> requestQueue := tl (requestQueue s) \<rparr>
      in if requestQueue s1 \<noteq> [] then writeNextRequest s1 else s1)"

section \<open>Control API\<close>

text \<open>
  What a piece of synchronous code leaves behind: either nothing to run (\<open>Idle\<close>), or a
  promise it settled, whose reactions run next as a microtask (\<open>Settle k result\<close>).
\<close>

datatype reaction =
    Idle master
  | Settle cont "error + jsval" master

definition requestAndForget :: "byte list \<Rightarrow> cont \<Rightarrow> master \<Rightarrow> reaction" where
  "requestAndForget requestFrame k s =
     (case request requestFrame (RequestAndForget k) s of
        Inl err \<Rightarrow> Settle k (Inl err) s
      | Inr s' \<Rightarrow> Idle s')"

definition requestAndResponse :: "byte list \<Rightarrow> nat \<Rightarrow> cont \<Rightarrow> master \<Rightarrow> reaction" where
  "requestAndResponse requestFrame len k s =
     (case request requestFrame (RequestAndResponse len k) s of
        Inl err \<Rightarrow> Settle k (Inl err) s
      | Inr s' \<Rightarrow> Idle s')"

definition setTarget :: "int \<Rightarrow> int \<Rightarrow> int \<Rightarrow> cont \<Rightarrow> master \<Rightarrow> reaction" where
  "setTarget device channel target k s =
     requestAndForget (setTarget_frame device channel target) k s"

definition setMultipleTargets :: "int \<Rightarrow> int \<Rightarrow> int list \<Rightarrow> cont \<Rightarrow> master \<Rightarrow> reaction" where
  "setMultipleTargets device channel targets k s =
     requestAndForget (setMultipleTargets_frame device channel targets) k s"

definition getPosition :: "int \<Rightarrow> int \<Rightarrow> cont \<Rightarrow> master \<Rightarrow> reaction" where
  "getPosition device channel k s =
     requestAndResponse (getPosition_frame device channel) 2 k s"

text \<open>
  The loop of \<open>getMultiplePositions\<close> from a given point: with no channel left it
  resolves with the result object; otherwise it calls \<open>getPosition\<close> for the next channel
  and suspends at the \<open>await\<close>.
\<close>

fun getMultiplePositions_from ::
  "int \<Rightarrow> int list \<Rightarrow> (int \<times> jsval) list \<Rightarrow> cont \<Rightarrow> master \<Rightarrow> reaction" where
  "getMultiplePositions_from device [] result k s = Settle k (Inr (JObject result)) s"
| "getMultiplePositions_from device (channel # rest) result k s =
     getPosition device channel (AwaitPosition device channel rest result k) s"

definition getMultiplePositions :: "int \<Rightarrow> int list \<Rightarrow> cont \<Rightarrow> master \<Rightarrow> reaction" where
  "getMultiplePositions device channels k s =
     getMultiplePositions_from device channels [] k s"

definition trySetTarget :: "int \<Rightarrow> int \<Rightarrow> int \<Rightarrow> cont \<Rightarrow> master \<Rightarrow> reaction" where
  "trySetTarget device channel target k s =
     setTarget device channel target (ThenGetPosition device channel target k) s"

text \<open>\<open>options.targets.map((v, i) => options.channel + i)\<close>\<close>

definition affected_channels :: "int \<Rightarrow> int list \<Rightarrow> int list" where
  "affected_channels channel targets = map (\<lambda>i. channel + int i) [0..<length targets]"

definition trySetMultipleTargets :: "int \<Rightarrow> int \<Rightarrow> int list \<Rightarrow> cont \<Rightarrow> master \<Rightarrow> reaction" where
  "trySetMultipleTargets device channel targets k s =
     setMultipleTargets device channel targets
       (ThenGetMultiplePositions device (affected_channels channel targets) targets k) s"

text \<open>
  The verification of \<open>trySetMultipleTargets\<close>:
  \<^verbatim>\<open>options.targets.forEach(({channel, target}) => { ... })\<close>.
  Each element of \<open>targets\<close> is a number (the same array was encoded by
  \<open>setMultipleTargets\<close> with \<open>target & 0x7F\<close>). Destructuring a number reads its
  properties \<open>channel\<close> and \<open>target\<close>, which a number does not have: both are
  \<open>undefined\<close>. \<open>actualTargets[channel]\<close> reads the property named by the value: the
  result object has the channel numbers as property names and nothing else.
\<close>

definition number_property :: "int \<Rightarrow> string \<Rightarrow> jsval" where
  "number_property n name = JUndefined"

definition get_property :: "jsval \<Rightarrow> jsval \<Rightarrow> jsval" where
  "get_property obj key =
     (case (obj, key) of
        (JObject properties, JNum c) \<Rightarrow>
          (case map_of properties c of Some v \<Rightarrow> v | None \<Rightarrow> JUndefined)
      | _ \<Rightarrow> JUndefined)"

fun checkTargets :: "int \<Rightarrow> jsval \<Rightarrow> int list \<Rightarrow> error option" where
  "checkTargets device actualTargets [] = None"
| "checkTargets device actualTargets (element # elements) =
     (let channel = number_property element ''channel'';
          target = number_property element ''target'';
          actualTarget = get_property actualTargets channel
      in if actualTarget \<noteq> target
         then Some (TargetMismatch device channel target actualTarget)
         else checkTargets device actualTargets elements)"

section \<open>Promise reactions\<close>

text \<open>
  \<open>resume k result s\<close> runs the reactions of a promise settled with \<open>result\<close>
  (\<open>Inl\<close>: rejected, \<open>Inr\<close>: resolved) until nothing is left to run. A \<open>.then(f)\<close> on a
  rejected promise passes the rejection on without calling \<open>f\<close>.
\<close>

fun cont_size :: "cont \<Rightarrow> nat" where
  "cont_size (Caller n) = 0"
| "cont_size (ThenGetPosition device channel target k) = cont_size k + 2"
| "cont_size (ThenCheckTarget device channel target k) = cont_size k + 1"
| "cont_size (AwaitPosition device channel rest result k) = cont_size k + length rest + 1"
| "cont_size (ThenGetMultiplePositions device channels targets k) = cont_size k + length channels + 3"
| "cont_size (ThenCheckTargets device targets k) = cont_size k + 1"

function resume :: "cont \<Rightarrow> error + jsval \<Rightarrow> master \<Rightarrow> master" where
  "resume (Caller n) result s = s\<lparr> settled := settled s @ [(n, result)] \<rparr>"
| "resume (ThenGetPosition device channel target k) result s =
     (case result of
        Inl err \<Rightarrow> resume (ThenCheckTarget device channel target k) (Inl err) s
      | Inr _ \<Rightarrow>
          (case getPosition device channel (ThenCheckTarget device channel target k) s of
             Idle s' \<Rightarrow> s'
           | Settle k' result' s' \<Rightarrow> resume k' result' s'))"
| "resume (ThenCheckTarget device channel target k) result s =
     (case result of
        Inl err \<Rightarrow> resume k (Inl err) s
      | Inr actualTarget \<Rightarrow>
          if actualTarget \<noteq> JNum target
          then resume k (Inl (TargetMismatch device (JNum channel) (JNum target) actualTarget)) s
          else resume k (Inr JUndefined) s)"
| "resume (AwaitPosition device channel rest result0 k) result s =
     (case result of
        Inl err \<Rightarrow> resume k (Inl (GetPositionFailed device channel err)) s
      | Inr pos \<Rightarrow>
          (case getMultiplePositions_from device rest (AList.update channel pos result0) k s of
             Idle s' \<Rightarrow> s'
           | Settle k' result' s' \<Rightarrow> resume k' result' s'))"
| "resume (ThenGetMultiplePositions device channels targets k) result s =
     (case result of
        Inl err \<Rightarrow> resume (ThenCheckTargets device targets k) (Inl err) s
      | Inr _ \<Rightarrow>
          (case getMultiplePositions device channels (ThenCheckTargets device targets k) s of
             Idle s' \<Rightarrow> s'
           | Settle k' result' s' \<Rightarrow> resume k' result' s'))"
| "resume (ThenCheckTargets device targets k) result s =
     (case result of
        Inl err \<Rightarrow> resume k (Inl err) s
      | Inr actualTargets \<Rightarrow>
          (case checkTargets device actualTargets targets of
             Some err \<Rightarrow> resume k (Inl err) s
           | None \<Rightarrow> resume k (Inr JUndefined) s))"
  by pat_completeness auto
termination
proof (relation "measure (\<lambda>(k, result, s). cont_size k)", goal_cases)
  case 1
  show ?case by simp
next
  case 2
  show ?case by simp
next
  case (3 device channel target k result s x2 k' result' s')
  then show ?case
    by (auto simp: getPosition_def requestAndResponse_def split: sum.splits)
next
  case 4
  show ?case by simp
next
  case 5
  show ?case by simp
next
  case 6
  show ?case by simp
next
  case 7
  show ?case by simp
next
  case (8 device channel rest result0 k result s pos k' result' s')
  then show ?case
    by (cases rest) (auto simp: getPosition_def requestAndResponse_def split: sum.splits)
next
  case 9
  show ?case by simp
next
  case (10 device channels targets k result s x2 k' result' s')
  then show ?case
    by (cases channels)
       (auto simp: getMultiplePositions_def getPosition_def requestAndResponse_def
             split: sum.splits)
next
  case 11
  show ?case by simp
next
  case 12
  show ?case by simp
next
  case 13
  show ?case by simp
qed

definition react :: "reaction \<Rightarrow> master" where
  "react r = (case r of Idle s \<Rightarrow> s | Settle k result s \<Rightarrow> resume k result s)"

section \<open>Frame buffer\<close>

text \<open>
  Modelled from the spec: the class \<open>BufferQueueReader\<close> of the external package
  \<open>h5.buffers\<close>, which the repository only imports. The buffer is the sequence of bytes
  received and not yet consumed: \<open>push\<close> appends, \<open>shiftBuffer(n)\<close> removes the first
  \<open>n\<close> bytes and returns them, \<open>skip()\<close> without a count discards everything that is
  buffered, \<open>length\<close> is the number of buffered bytes.
\<close>

definition push :: "byte list \<Rightarrow> byte list \<Rightarrow> byte list" where
  "push buffer data = buffer @ data"

definition shiftBuffer :: "nat \<Rightarrow> byte list \<Rightarrow> byte list \<times> byte list" where
  "shiftBuffer n buffer = (take n buffer, drop n buffer)"

definition skip :: "byte list \<Rightarrow> byte list" where
  "skip buffer = []"

section \<open>Callbacks\<close>

text \<open>
  The callback of a response handler: \<open>complete()\<close>, then \<open>done(err, responseFrame)\<close>,
  which in \<open>getPosition\<close> rejects with the error or resolves with the decoded position.
\<close>

definition responseHandler_callback ::
  "responseHandler \<Rightarrow> error + byte list \<Rightarrow> master \<Rightarrow> reaction" where
  "responseHandler_callback responseHandler r s =
     (let s1 = complete s
      in (case r of
            Inl err \<Rightarrow> Settle (done_cb responseHandler) (Inl err) s1
          | Inr responseFrame \<Rightarrow>
              Settle (done_cb responseHandler) (Inr (JNum (position responseFrame))) s1))"

text \<open>
  \<open>request.callback(err)\<close> and \<open>request.callback(null, complete)\<close>. The closure of
  \<open>requestAndForget\<close> rejects, or calls \<open>complete()\<close> and resolves. The closure of
  \<open>requestAndResponse\<close> passes the error to \<open>done\<close>, or creates the response handler, arms
  its timer and pushes it on the handler list (\<open>complete\<close> is kept for the handler's
  callback).
\<close>

definition request_callback :: "request \<Rightarrow> error option \<Rightarrow> master \<Rightarrow> reaction" where
  "request_callback req err s =
     (case callback req of
        RequestAndForget k \<Rightarrow>
          (case err of
             Some e \<Rightarrow> Settle k (Inl e) s
           | None \<Rightarrow> Settle k (Inr JUndefined) (complete s))
      | RequestAndResponse len k \<Rightarrow>
          (case err of
             Some e \<Rightarrow> Settle k (Inl e) s
           | None \<Rightarrow>
               let responseHandler = \<lparr> hid = nextHandler s, responseLength = len, done_cb = k \<rparr>
               in Idle (s\<lparr> nextHandler := nextHandler s + 1,
                           timers := timers s @ [responseHandler],
                           responseHandlers := responseHandlers s @ [responseHandler] \<rparr>)))"

text \<open>
  The callback \<open>writeNextRequest\<close> gave to \<open>serialPort.write\<close>, for the oldest write not
  yet called back: on an error the queue is shifted and the request's callback gets the
  error; otherwise the request's callback gets \<open>complete\<close>.
\<close>

definition onWriteCallback :: "string option \<Rightarrow> master \<Rightarrow> master" where
  "onWriteCallback err s =
     (case pendingWrites s of
        [] \<Rightarrow> s
      | req # rest \<Rightarrow>
          let s0 = s\<lparr> pendingWrites := rest \<rparr>
          in (case err of
                Some m \<Rightarrow>
                  react (request_callback req (Some (WriteError m))
                           (s0\<lparr> requestQueue := tl (requestQueue s0) \<rparr>))
              | None \<Rightarrow> react (request_callback req None s0)))"

text \<open>\<open>clearTimeout\<close> disarms the timer of the handler.\<close>

definition clearTimeout :: "responseHandler \<Rightarrow> responseHandler list \<Rightarrow> responseHandler list" where
  "clearTimeout responseHandler ts = filter (\<lambda>t. hid t \<noteq> hid responseHandler) ts"

text \<open>
  \<open>onSerialPortData\<close>. The reactions of the promise the handler's callback settled run
  after the function has returned, so after the leftover bytes were skipped.
\<close>

definition skipLeftover :: "master \<Rightarrow> master" where
  "skipLeftover s =
     (if length (responseBuffer s) \<noteq> 0 \<and> responseHandlers s = []
      then s\<lparr> responseBuffer := skip (responseBuffer s) \<rparr>
      else s)"

definition onSerialPortData :: "byte list \<Rightarrow> master \<Rightarrow> master" where
  "onSerialPortData data s =
     (case responseHandlers s of
        [] \<Rightarrow> s
      | responseHandler # rest \<Rightarrow>
          let s1 = s\<lparr> responseBuffer := push (responseBuffer s) data \<rparr>
          in if length (responseBuffer s1) < responseLength responseHandler then s1
             else
               let s2 = s1\<lparr> responseHandlers := rest,
                            timers := clearTimeout responseHandler (timers s1) \<rparr>;
                   (responseFrame, buffer') = shiftBuffer (responseLength responseHandler) (responseBuffer s2);
                   s3 = s2\<lparr> responseBuffer := buffer' \<rparr>
               in (case responseHandler_callback responseHandler (Inr responseFrame) s3 of
                     Idle s4 \<Rightarrow> skipLeftover s4
                   | Settle k result s4 \<Rightarrow> resume k result (skipLeftover s4)))"

text \<open>
  \<open>indexOf\<close> (by identity; -1 when absent) and \<open>splice(i, 1)\<close> (a negative start counts
  from the end, a start past the end removes nothing).
\<close>

fun indexOf :: "responseHandler list \<Rightarrow> responseHandler \<Rightarrow> int" where
  "indexOf [] h = -1"
| "indexOf (x # xs) h =
     (if hid x = hid h then 0
      else let i = indexOf xs h in if i < 0 then -1 else i + 1)"

definition splice1 :: "int \<Rightarrow> 'a list \<Rightarrow> 'a list" where
  "splice1 i xs =
     (let len = int (length xs);
          start = (if i < 0 then max (len + i) 0 else min i len)
      in take (nat start) xs @ drop (nat start + 1) xs)"

text \<open>
  The timer closure of \<open>requestAndResponse\<close>, for the handler with identity \<open>i\<close>. A timer
  that is not armed does not fire, and the timer that fires is armed no longer.
\<close>

definition onTimeout :: "nat \<Rightarrow> master \<Rightarrow> master" where
  "onTimeout i s =
     (case find (\<lambda>t. hid t = i) (timers s) of
        None \<Rightarrow> s
      | Some responseHandler \<Rightarrow>
          let s0 = s\<lparr> timers := clearTimeout responseHandler (timers s) \<rparr>;
              j = indexOf (responseHandlers s0) responseHandler;
              s1 = s0\<lparr> responseHandlers := splice1 j (responseHandlers s0) \<rparr>
          in react (responseHandler_callback responseHandler (Inl ResponseTimeout) s1))"

section \<open>Events\<close>

datatype operation =
    SetTarget int int int
  | TrySetTarget int int int
  | SetMultipleTargets int int "int list"
  | TrySetMultipleTargets int int "int list"
  | GetPosition int int
  | GetMultiplePositions int "int list"

fun invoke :: "operation \<Rightarrow> cont \<Rightarrow> master \<Rightarrow> reaction" where
  "invoke (SetTarget device channel target) k s = setTarget device channel target k s"
| "invoke (TrySetTarget device channel target) k s = trySetTarget device channel target k s"
| "invoke (SetMultipleTargets device channel targets) k s = setMultipleTargets device channel targets k s"
| "invoke (TrySetMultipleTargets device channel targets) k s = trySetMultipleTargets device channel targets k s"
| "invoke (GetPosition device channel) k s = getPosition device channel k s"
| "invoke (GetMultiplePositions device channels) k s = getMultiplePositions device channels k s"

text \<open>
  \<^item> \<open>Call op\<close>: a caller invokes an operation; its promise is \<open>Caller n\<close> for the
    running number \<open>n\<close> of the call;
  \<^item> \<open>WriteDone err\<close>: the serial port calls back the oldest outstanding write, with an
    error or without;
  \<^item> \<open>Data bytes\<close>: the serial port delivers bytes;
  \<^item> \<open>Timeout i\<close>: the timer of handler \<open>i\<close> fires;
  \<^item> \<open>PortOpen\<close>, \<open>PortClose\<close>: the serial port changes its \<open>isOpen\<close> (the engine
    only re-emits these events).
\<close>

datatype event =
    Call operation
  | WriteDone "string option"
  | Data "byte list"
  | Timeout nat
  | PortOpen
  | PortClose

fun step :: "event \<Rightarrow> master \<Rightarrow> master" where
  "step (Call op) s = react (invoke op (Caller (nextOp s)) (s\<lparr> nextOp := nextOp s + 1 \<rparr>))"
| "step (WriteDone err) s = onWriteCallback err s"
| "step (Data bytes) s = onSerialPortData bytes s"
| "step (Timeout i) s = onTimeout i s"
| "step PortOpen s = s\<lparr> isOpen := True \<rparr>"
| "step PortClose s = s\<lparr> isOpen := False \<rparr>"

definition run :: "event list \<Rightarrow> master \<Rightarrow> master" where
  "run events s = fold step events s"

section \<open>Auxiliary notions for stating properties\<close>

text \<open>
  The caller whose promise a pending promise finally settles, and the error that caller
  sees when the pending promise is rejected with \<open>err\<close>: every reaction passes a rejection
  on, and the loop of \<open>getMultiplePositions\<close> wraps it with the device and the channel.
\<close>

fun caller_of :: "cont \<Rightarrow> nat" where
  "caller_of (Caller n) = n"
| "caller_of (ThenGetPosition device channel target k) = caller_of k"
| "caller_of (ThenCheckTarget device channel target k) = caller_of k"
| "caller_of (AwaitPosition device channel rest result k) = caller_of k"
| "caller_of (ThenGetMultiplePositions device channels targets k) = caller_of k"
| "caller_of (ThenCheckTargets device targets k) = caller_of k"

fun rejection :: "cont \<Rightarrow> error \<Rightarrow> error" where
  "rejection (Caller n) err = err"
| "rejection (ThenGetPosition device channel target k) err = rejection k err"
| "rejection (ThenCheckTarget device channel target k) err = rejection k err"
| "rejection (AwaitPosition device channel rest result k) err =
     rejection k (GetPositionFailed device channel err)"
| "rejection (ThenGetMultiplePositions device channels targets k) err = rejection k err"
| "rejection (ThenCheckTargets device targets k) err = rejection k err"

text \<open>How an operation called on a closed port settles.\<close>

fun closed_result :: "operation \<Rightarrow> error + jsval" where
  "closed_result (GetMultiplePositions device []) = Inr (JObject [])"
| "closed_result (GetMultiplePositions device (channel # rest)) =
     Inl (GetPositionFailed device channel SerialPortClosed)"
| "closed_result op = Inl SerialPortClosed"

text \<open>
  The head of the request queue is in flight when its write is outstanding or its
  response is awaited. The invariant of the engine: at most one write is outstanding and
  at most one handler is registered, each handler has its timer armed, an outstanding
  write is the write of the head of the queue, the frame written last is the frame of the
  head while it is in flight, and the frames pushed so far are the frames written
  followed by the frames of the requests that wait in the queue.
\<close>

definition in_flight :: "master \<Rightarrow> bool" where
  "in_flight s = (pendingWrites s \<noteq> [] \<or> responseHandlers s \<noteq> [])"

definition engine_inv :: "master \<Rightarrow> bool" where
  "engine_inv s =
     (length (pendingWrites s) \<le> 1 \<and>
      length (responseHandlers s) \<le> 1 \<and>
      timers s = responseHandlers s \<and>
      (pendingWrites s \<noteq> [] \<longrightarrow>
         responseHandlers s = [] \<and> requestQueue s \<noteq> [] \<and> pendingWrites s = [hd (requestQueue s)]) \<and>
      (in_flight s \<longrightarrow>
         requestQueue s \<noteq> [] \<and> written s \<noteq> [] \<and>
         last (written s) = frame (hd (requestQueue s))) \<and>
      enqueued s = written s @ map frame (if in_flight s then tl (requestQueue s) else requestQueue s))"







text \<open>
  Scenarios of \<open>getMultiplePositions\<close>. \<open>idle_state\<close> is an engine on an open port with
  nothing queued, outstanding, awaited or buffered. \<open>answers served\<close> are the events that
  serve one read after the other: the write succeeds, then the device delivers the two
  response bytes. \<open>collected served result\<close> is the result object after these reads.
  An engine is \<open>quiet\<close> when nothing is queued, outstanding or awaited.
\<close>

definition idle_state ::
  "nat \<Rightarrow> nat \<Rightarrow> nat \<Rightarrow> byte list list \<Rightarrow> byte list list \<Rightarrow> (nat \<times> (error + jsval)) list \<Rightarrow> master" where
  "idle_state rt nh no ws es st =
     \<lparr> responseTimeout = rt, isOpen = True, requestQueue = [], responseHandlers = [],
       responseBuffer = [], pendingWrites = [], timers = [], nextHandler = nh, nextOp = no,
       written = ws, enqueued = es, settled = st \<rparr>"

fun answers :: "(int \<times> byte \<times> byte) list \<Rightarrow> event list" where
  "answers [] = []"
| "answers ((channel, b0, b1) # served) = WriteDone None # Data [b0, b1] # answers served"

definition collected :: "(int \<times> byte \<times> byte) list \<Rightarrow> (int \<times> jsval) list \<Rightarrow> (int \<times> jsval) list" where
  "collected served result =
     fold (\<lambda>(channel, b0, b1). AList.update channel (JNum (position [b0, b1]))) served result"

fun is_call :: "event \<Rightarrow> bool" where
  "is_call (Call op) = True"
| "is_call e = False"

definition quiet :: "master \<Rightarrow> bool" where
  "quiet s = (requestQueue s = [] \<and> pendingWrites s = [] \<and> responseHandlers s = [] \<and> timers s = [])"

text \<open>
  A queue is \<open>stalled\<close> when a request is queued but nothing is in flight: no write is
  outstanding and no response is awaited.
\<close>

definition stalled :: "master \<Rightarrow> bool" where
  "stalled s = (requestQueue s \<noteq> [] \<and> pendingWrites s = [] \<and> responseHandlers s = [] \<and> timers s = [])"


definition head_in_flight :: "master \<Rightarrow> bool" where
  "head_in_flight s = (requestQueue s \<noteq> [] \<longrightarrow> in_flight s)"

section \<open>Basic facts\<close>

lemmas engine_defs = run_def Master_def react_def setTarget_def setMultipleTargets_def
  getPosition_def getMultiplePositions_def trySetTarget_def trySetMultipleTargets_def
  requestAndForget_def requestAndResponse_def request_def writeNextRequest_def complete_def
  onWriteCallback_def request_callback_def responseHandler_callback_def onSerialPortData_def
  onTimeout_def skipLeftover_def clearTimeout_def push_def shiftBuffer_def skip_def
  splice1_def setTarget_frame_def setMultipleTargets_frame_def getPosition_frame_def
  affected_channels_def number_property_def get_property_def Let_def

text \<open>A rejection reaches the caller and changes nothing else.\<close>

lemma resume_Inl:
  "resume k (Inl err) s = s\<lparr> settled := settled s @ [(caller_of k, Inl (rejection k err))] \<rparr>"
  by (induction k arbitrary: err) simp_all

text \<open>The little-endian read of the two response bytes inverts the split of a 16-bit value.\<close>

lemma position_decode:
  assumes "0 \<le> p" "p \<le> 65535"
  shows "position [word_of_int (p AND 0xFF), word_of_int (drop_bit 8 p)] = p"
proof -
  have p16: "take_bit 16 p = p"
    using assms by (simp add: take_bit_int_eq_self)
  have lo: "uint (word_of_int (p AND 0xFF) :: byte) = take_bit 8 p"
  proof -
    have "p AND 0xFF = take_bit 8 p"
      by (simp add: take_bit_eq_mask mask_eq_exp_minus_1)
    then show ?thesis by (simp add: uint_word_of_int_eq)
  qed
  have "drop_bit 8 p < 2 ^ 8"
    using assms by (simp add: drop_bit_eq_div)
  moreover have "0 \<le> drop_bit 8 p"
    using assms by (simp add: drop_bit_eq_div)
  ultimately have hi: "uint (word_of_int (drop_bit 8 p) :: byte) = drop_bit 8 p"
    by (simp add: uint_word_of_int_eq take_bit_int_eq_self)
  have "push_bit 8 (drop_bit 8 p) + take_bit 8 p = p"
    by (simp add: bits_ident)
  moreover have "p AND 0xFFFF = take_bit 16 p"
    by (simp add: take_bit_eq_mask mask_eq_exp_minus_1)
  ultimately show ?thesis
    by (simp add: position_def lo hi p16)
qed

text \<open>
  The verification loop of \<open>trySetMultipleTargets\<close> never finds a mismatch, whatever was
  read back: it compares \<open>undefined\<close> with \<open>undefined\<close> for every element.
\<close>

lemma get_property_undefined: "get_property obj JUndefined = JUndefined"
  by (cases obj) (simp_all add: get_property_def)

lemma checkTargets_never_fails: "checkTargets device actualTargets targets = None"
  by (induction targets) (simp_all add: number_property_def get_property_undefined)

section \<open>The invariant holds in every reachable state\<close>


lemma engine_inv_settled [simp]: "engine_inv (s\<lparr> settled := x \<rparr>) = engine_inv s"
  by (simp add: engine_inv_def in_flight_def)

lemma engine_inv_isOpen [simp]: "engine_inv (s\<lparr> isOpen := x \<rparr>) = engine_inv s"
  by (simp add: engine_inv_def in_flight_def)

lemma engine_inv_nextOp [simp]: "engine_inv (s\<lparr> nextOp := x \<rparr>) = engine_inv s"
  by (simp add: engine_inv_def in_flight_def)

lemma engine_inv_responseBuffer [simp]: "engine_inv (s\<lparr> responseBuffer := x \<rparr>) = engine_inv s"
  by (simp add: engine_inv_def in_flight_def)



















section \<open>Frames are pushed in call order\<close>













section \<open>What reactions and the queue leave untouched\<close>

lemma request_frame:
  "request f cb s = Inr s' \<Longrightarrow>
     responseHandlers s' = responseHandlers s \<and> responseBuffer s' = responseBuffer s \<and>
     timers s' = timers s \<and> settled s' = settled s"
  by (auto simp: request_def writeNextRequest_def Let_def split: if_splits list.splits)

lemma getPosition_frame_Idle:
  "getPosition d c k s = Idle s' \<Longrightarrow>
     responseHandlers s' = responseHandlers s \<and> responseBuffer s' = responseBuffer s \<and>
     timers s' = timers s"
  by (auto simp: getPosition_def requestAndResponse_def split: sum.splits dest: request_frame)

lemma getPosition_frame_Settle:
  "getPosition d c k s = Settle k' r s' \<Longrightarrow> s' = s"
  by (auto simp: getPosition_def requestAndResponse_def split: sum.splits)

lemma from_frame_Idle:
  "getMultiplePositions_from d cs res k s = Idle s' \<Longrightarrow>
     responseHandlers s' = responseHandlers s \<and> responseBuffer s' = responseBuffer s \<and>
     timers s' = timers s"
  by (cases cs) (auto dest: getPosition_frame_Idle)

lemma from_frame_Settle:
  "getMultiplePositions_from d cs res k s = Settle k' r s' \<Longrightarrow> s' = s"
  by (cases cs) (auto dest: getPosition_frame_Settle)

lemma resume_frame:
  "responseHandlers (resume k r s) = responseHandlers s \<and>
   responseBuffer (resume k r s) = responseBuffer s \<and>
   timers (resume k r s) = timers s"
proof (induction k r s rule: resume.induct)
  case (1 n result s)
  then show ?case by simp
next
  case (2 device channel target k result s)
  then show ?case
    by (auto split: sum.splits reaction.splits dest: getPosition_frame_Idle getPosition_frame_Settle)
next
  case (3 device channel target k result s)
  then show ?case by (auto split: sum.splits)
next
  case (4 device channel rest result0 k result s)
  then show ?case
    by (auto split: sum.splits reaction.splits dest: from_frame_Idle from_frame_Settle)
next
  case (5 device channels targets k result s)
  then show ?case
    by (auto simp: getMultiplePositions_def split: sum.splits reaction.splits
             dest: from_frame_Idle from_frame_Settle)
next
  case (6 device targets k result s)
  then show ?case by (auto split: sum.splits option.splits)
qed

lemma complete_frame:
  "responseHandlers (complete s) = responseHandlers s \<and>
   responseBuffer (complete s) = responseBuffer s \<and>
   timers (complete s) = timers s \<and> settled (complete s) = settled s"
  by (simp add: complete_def writeNextRequest_def Let_def split: list.splits)

section \<open>Reading several positions, one read at a time\<close>

lemma round_trip:
  "step (Data [b0, b1]) (step (WriteDone None)
      (react (getMultiplePositions_from d (c # rest) res k (idle_state rt nh no ws es st))))
   = react (getMultiplePositions_from d rest (AList.update c (JNum (position [b0, b1])) res) k
        (idle_state rt (nh + 1) no (ws @ [getPosition_frame d c]) (es @ [getPosition_frame d c]) st))"
  by (simp add: idle_state_def react_def getPosition_def requestAndResponse_def request_def
        writeNextRequest_def complete_def onWriteCallback_def request_callback_def
        responseHandler_callback_def onSerialPortData_def skipLeftover_def clearTimeout_def
        push_def shiftBuffer_def skip_def Let_def)

lemma run_Cons: "run (e # events) s = run events (step e s)"
  by (simp add: run_def)

lemma run_append: "run (events @ events') s = run events' (run events s)"
  by (simp add: run_def)

lemma served_rounds:
  "run (answers served)
      (react (getMultiplePositions_from d (map fst served @ rest) res k (idle_state rt nh no ws es st)))
   = react (getMultiplePositions_from d rest (collected served res) k
        (idle_state rt (nh + length served) no
           (ws @ map (getPosition_frame d) (map fst served))
           (es @ map (getPosition_frame d) (map fst served)) st))"
proof (induction served arbitrary: res nh ws es)
  case Nil
  show ?case by (simp add: run_def collected_def)
next
  case (Cons x served)
  obtain c b0 b1 where x: "x = (c, b0, b1)" by (cases x) 
  show ?case
    using Cons.IH [of "AList.update c (JNum (position [b0, b1])) res" "nh + 1"
                      "ws @ [getPosition_frame d c]" "es @ [getPosition_frame d c]"]
    by (simp add: x run_Cons round_trip collected_def del: step.simps getMultiplePositions_from.simps)
qed

lemma quiet_step:
  "quiet s \<Longrightarrow> \<not> is_call e \<Longrightarrow> quiet (step e s) \<and> written (step e s) = written s \<and> settled (step e s) = settled s"
  by (cases e) (simp_all add: quiet_def onWriteCallback_def onSerialPortData_def onTimeout_def)

lemma quiet_run:
  "quiet s \<Longrightarrow> list_all (\<lambda>e. \<not> is_call e) later \<Longrightarrow>
     written (run later s) = written s \<and> settled (run later s) = settled s"
proof (induction later arbitrary: s)
  case Nil
  show ?case by (simp add: run_def)
next
  case (Cons e later)
  then show ?case
    using quiet_step [of s e] by (simp add: run_Cons del: step.simps)
qed

lemma await_state:
  "react (getMultiplePositions_from d (c # rest) res k (idle_state rt nh no ws es st)) =
     (idle_state rt nh no (ws @ [getPosition_frame d c]) (es @ [getPosition_frame d c]) st)
       \<lparr> requestQueue := [\<lparr> frame = getPosition_frame d c,
                             callback = RequestAndResponse 2 (AwaitPosition d c rest res k) \<rparr>],
          pendingWrites := [\<lparr> frame = getPosition_frame d c,
                             callback = RequestAndResponse 2 (AwaitPosition d c rest res k) \<rparr>] \<rparr>"
  by (simp add: idle_state_def react_def getPosition_def requestAndResponse_def request_def
        writeNextRequest_def Let_def)

lemma write_fails:
  "step (WriteDone (Some m))
      (react (getMultiplePositions_from d (c # rest) res k (idle_state rt nh no ws es st)))
   = idle_state rt nh no (ws @ [getPosition_frame d c]) (es @ [getPosition_frame d c])
       (st @ [(caller_of k, Inl (rejection k (GetPositionFailed d c (WriteError m))))])"
  by (simp add: idle_state_def react_def getPosition_def requestAndResponse_def request_def
        writeNextRequest_def onWriteCallback_def request_callback_def resume_Inl Let_def)

lemma response_times_out:
  "step (Timeout nh) (step (WriteDone None)
      (react (getMultiplePositions_from d (c # rest) res k (idle_state rt nh no ws es st))))
   = idle_state rt (nh + 1) no (ws @ [getPosition_frame d c]) (es @ [getPosition_frame d c])
       (st @ [(caller_of k, Inl (rejection k (GetPositionFailed d c ResponseTimeout)))])"
  by (simp add: idle_state_def react_def getPosition_def requestAndResponse_def request_def
        writeNextRequest_def onWriteCallback_def request_callback_def resume_Inl Let_def
        onTimeout_def responseHandler_callback_def clearTimeout_def splice1_def complete_def)

lemma call_getMultiplePositions:
  "step (Call (GetMultiplePositions d cs)) (Master t True) =
     react (getMultiplePositions_from d cs [] (Caller 0)
              (idle_state (if t = 0 then 100 else t) 0 1 [] [] []))"
  by (simp add: getMultiplePositions_def Master_def idle_state_def)

lemma quiet_idle_state: "quiet (idle_state rt nh no ws es st)"
  by (simp add: quiet_def idle_state_def)

lemma update_fresh: "k \<notin> fst ` set al \<Longrightarrow> AList.update k v al = al @ [(k, v)]"
  by (induction al) auto

lemma collected_distinct:
  "distinct (map fst served) \<Longrightarrow> fst ` set res \<inter> fst ` set served = {} \<Longrightarrow>
     collected served res = res @ map (\<lambda>(c, b0, b1). (c, JNum (position [b0, b1]))) served"
proof (induction served arbitrary: res)
  case Nil
  show ?case by (simp add: collected_def)
next
  case (Cons x served)
  obtain c b0 b1 where x: "x = (c, b0, b1)" by (cases x)
  have f: "c \<notin> fst ` set res"
    using Cons.prems(2) by (auto simp: x)
  have "collected (x # served) res = collected served (res @ [(c, JNum (position [b0, b1]))])"
    using update_fresh [OF f] by (simp add: collected_def x)
  also have "\<dots> = (res @ [(c, JNum (position [b0, b1]))]) @ map (\<lambda>(c, b0, b1). (c, JNum (position [b0, b1]))) served"
    using Cons.prems by (intro Cons.IH) (auto simp: x)
  finally show ?case by (simp add: x)
qed

section \<open>A stalled queue never writes again\<close>

lemma stalled_settled [simp]: "stalled (s\<lparr> settled := x \<rparr>) = stalled s"
  by (simp add: stalled_def)

lemma stalled_request:
  "stalled s \<Longrightarrow> request f cb s = Inr s' \<Longrightarrow> stalled s' \<and> written s' = written s"
  by (cases "requestQueue s") (auto simp: stalled_def request_def Let_def split: if_splits)

lemma stalled_getPosition_Idle:
  "stalled s \<Longrightarrow> getPosition d c k s = Idle s' \<Longrightarrow> stalled s' \<and> written s' = written s"
  by (auto simp: getPosition_def requestAndResponse_def split: sum.splits dest: stalled_request)

lemma stalled_getPosition_Settle:
  "stalled s \<Longrightarrow> getPosition d c k s = Settle k' r s' \<Longrightarrow> stalled s' \<and> written s' = written s"
  by (auto dest: getPosition_frame_Settle)

lemma stalled_from_Settle:
  "stalled s \<Longrightarrow> getMultiplePositions_from d cs res k s = Settle k' r s' \<Longrightarrow>
     stalled s' \<and> written s' = written s"
  by (auto dest: from_frame_Settle)

lemma stalled_from_Idle:
  "stalled s \<Longrightarrow> getMultiplePositions_from d cs res k s = Idle s' \<Longrightarrow>
     stalled s' \<and> written s' = written s"
  by (cases cs) (auto dest: stalled_getPosition_Idle)

lemma stalled_resume:
  "stalled s \<Longrightarrow> stalled (resume k r s) \<and> written (resume k r s) = written s"
proof (induction k r s rule: resume.induct)
  case (1 n result s)
  then show ?case by simp
next
  case (2 device channel target k result s)
  then show ?case
    by (auto split: sum.splits reaction.splits
             dest: stalled_getPosition_Idle stalled_getPosition_Settle)
next
  case (3 device channel target k result s)
  then show ?case by (auto split: sum.splits)
next
  case (4 device channel rest result0 k result s)
  then show ?case
    by (auto split: sum.splits reaction.splits dest: stalled_from_Idle stalled_from_Settle)
next
  case (5 device channels targets k result s)
  then show ?case
    by (auto simp: getMultiplePositions_def split: sum.splits reaction.splits
             dest: stalled_from_Idle stalled_from_Settle)
next
  case (6 device targets k result s)
  then show ?case by (auto split: sum.splits option.splits)
qed

lemma stalled_react_requestAndForget:
  "stalled s \<Longrightarrow> stalled (react (requestAndForget f k s)) \<and>
     written (react (requestAndForget f k s)) = written s"
  by (auto simp: react_def requestAndForget_def stalled_resume split: sum.splits
           dest: stalled_request)

lemma stalled_react_from:
  "stalled s \<Longrightarrow> stalled (react (getMultiplePositions_from d cs res k s)) \<and>
     written (react (getMultiplePositions_from d cs res k s)) = written s"
  by (auto simp: react_def stalled_resume split: reaction.splits
           dest: stalled_from_Idle from_frame_Settle)

lemma stalled_react_getPosition:
  "stalled s \<Longrightarrow> stalled (react (getPosition d c k s)) \<and>
     written (react (getPosition d c k s)) = written s"
  by (auto simp: react_def stalled_resume split: reaction.splits
           dest: stalled_getPosition_Idle getPosition_frame_Settle)

lemma stalled_step: "stalled s \<Longrightarrow> stalled (step e s) \<and> written (step e s) = written s"
proof (cases e)
  case (Call op)
  assume st: "stalled s"
  then have "stalled (s\<lparr> nextOp := nextOp s + 1 \<rparr>)"
    by (simp add: stalled_def)
  then show ?thesis
    using stalled_react_requestAndForget stalled_react_from stalled_react_getPosition
    by (cases op)
       (simp_all add: Call setTarget_def setMultipleTargets_def trySetTarget_def
          trySetMultipleTargets_def getMultiplePositions_def)
qed (simp_all add: stalled_def onWriteCallback_def onSerialPortData_def onTimeout_def)

lemma stalled_run: "stalled s \<Longrightarrow> written (run later s) = written s"
proof (induction later arbitrary: s)
  case Nil
  show ?case by (simp add: run_def)
next
  case (Cons e later)
  then show ?case
    using stalled_step [of s e] by (simp add: run_Cons del: step.simps)
qed

section \<open>Without a write error the head of the queue is always in flight\<close>

lemma head_in_flight_settled [simp]: "head_in_flight (s\<lparr> settled := x \<rparr>) = head_in_flight s"
  by (simp add: head_in_flight_def in_flight_def)





















section \<open>Claims\<close>

text \<open>
  C1. Claim: when the batched write and the readback of \<open>trySetMultipleTargets\<close> succeed
  and a position read back differs from the requested target, the operation rejects with
  a target mismatch error. What the code does at \<open>trySetMultipleTargets\<close> of device 1,
  channel 0, targets [4000] on an open engine, both writes succeeding and the device
  answering the readback with the bytes 0x9F, 0x0F (position 3999): the operation
  resolves. The verification loop finds no mismatch for any targets and any readback.
\<close>

theorem C1_trySetMultipleTargets_resolves_on_mismatch:
  "checkTargets device actualTargets targets = None \<and>
   position [0x9F, 0x0F] = 3999 \<and>
   settled (run [Call (TrySetMultipleTargets 1 0 [4000]), WriteDone None,
                 WriteDone None, Data [0x9F, 0x0F]] (Master 0 True))
     = [(0, Inr JUndefined)]"
  by (rule conjI, rule checkTargets_never_fails, code_simp)

text \<open>
  C2. Claim: after a failed write the head request is removed, its operation fails with
  the write error, and the queue attempts the next queued request. What the code does
  when two \<open>setTarget\<close> are issued, the write of the first fails, and a third is issued:
  the first operation is rejected with the write error and leaves the queue, but the
  second is not written, and neither is the third, which queues up behind it; and
  whatever events follow, nothing is ever written again.
\<close>

theorem C2_queue_stalls_after_write_error:
  "(let s = run [Call (SetTarget 1 0 100), Call (SetTarget 1 1 200), WriteDone (Some ''EIO''),
                 Call (SetTarget 1 2 300)] (Master 0 True)
    in settled s = [(0, Inl (WriteError ''EIO''))] \<and>
       map frame (requestQueue s) = [setTarget_frame 1 1 200, setTarget_frame 1 2 300] \<and>
       written s = [setTarget_frame 1 0 100] \<and>
       pendingWrites s = []) \<and>
   written (run ([Call (SetTarget 1 0 100), Call (SetTarget 1 1 200), WriteDone (Some ''EIO''),
                  Call (SetTarget 1 2 300)] @ later) (Master 0 True))
     = [setTarget_frame 1 0 100]"
proof -
  let ?s = "run [Call (SetTarget 1 0 100), Call (SetTarget 1 1 200), WriteDone (Some ''EIO''),
                 Call (SetTarget 1 2 300)] (Master 0 True)"
  have a: "settled ?s = [(0, Inl (WriteError ''EIO''))] \<and>
       map frame (requestQueue ?s) = [setTarget_frame 1 1 200, setTarget_frame 1 2 300] \<and>
       written ?s = [setTarget_frame 1 0 100] \<and>
       pendingWrites ?s = []"
    by code_simp
  have "stalled ?s"
    by code_simp
  then have "written (run later ?s) = written ?s"
    by (rule stalled_run)
  with a show ?thesis
    unfolding Let_def run_append by simp
qed






text \<open>
  C5, as amended. \<open>setTarget\<close> of device 12, channel 0, target 6000 on an open engine with
  an empty queue writes exactly the frame 0xAA, 12, 0x04, 0, 0x70, 0x2E; the fifth byte
  is \<open>6000 & 0x7F\<close> (which is 0x70) and the sixth is \<open>(6000 >> 7) & 0x7F\<close>.
\<close>

theorem C5_setTarget_frame:
  "written (step (Call (SetTarget 12 0 6000)) (Master t True))
     = [[0xAA, 12, 0x04, 0, 0x70, 0x2E]] \<and>
   (0x70 :: byte) = word_of_int (6000 AND 0x7F) \<and>
   (0x2E :: byte) = word_of_int (drop_bit 7 6000 AND 0x7F)"
  by (simp add: engine_defs)

text \<open>C5 as stated fails: the frame written is not 0xAA, 12, 0x04, 0, 0x60, 0x2E.\<close>

theorem C5_frame_counterexample:
  "written (step (Call (SetTarget 12 0 6000)) (Master 0 True))
     \<noteq> [[0xAA, 12, 0x04, 0, 0x60, 0x2E]]"
  by (simp add: engine_defs)

text \<open>
  C6. \<open>getMultiplePositions\<close> on a freshly constructed engine with an open port, the
  reads of the channels in \<open>served\<close> being answered one after the other.
  If these are all the channels, the call resolves with the result object collected from
  the answers (for distinct channels: one property per channel, holding its position),
  and exactly one read per channel was written, in the order of the list.
  If a channel follows, the call is still pending, the read of that channel is the last
  one written and is outstanding, and no read of a later channel was written: a read
  starts only after the one before resolved.
  If the read of that channel fails, by a write error or by a response timeout, the
  call is rejected with the error that names the device and the channel, and no read of
  a later channel is written, whatever happens afterwards short of a new call.
\<close>

theorem C6_getMultiplePositions_sequential:
  "(let s = run (Call (GetMultiplePositions device (map fst served)) # answers served) (Master t True)
    in settled s = [(0, Inr (JObject (collected served [])))] \<and>
       written s = map (getPosition_frame device) (map fst served)) \<and>
   (distinct (map fst served) \<longrightarrow>
      collected served [] = map (\<lambda>(c, b0, b1). (c, JNum (position [b0, b1]))) served) \<and>
   (let s = run (Call (GetMultiplePositions device (map fst served @ channel # rest)) # answers served)
              (Master t True)
    in settled s = [] \<and>
       written s = map (getPosition_frame device) (map fst served @ [channel]) \<and>
       map frame (pendingWrites s) = [getPosition_frame device channel]) \<and>
   (list_all (\<lambda>e. \<not> is_call e) later \<longrightarrow>
      (let s = run (Call (GetMultiplePositions device (map fst served @ channel # rest)) # answers served
                      @ [WriteDone (Some m)] @ later) (Master t True)
       in settled s = [(0, Inl (GetPositionFailed device channel (WriteError m)))] \<and>
          written s = map (getPosition_frame device) (map fst served @ [channel])) \<and>
      (let s = run (Call (GetMultiplePositions device (map fst served @ channel # rest)) # answers served
                      @ [WriteDone None, Timeout (length served)] @ later) (Master t True)
       in settled s = [(0, Inl (GetPositionFailed device channel ResponseTimeout))] \<and>
          written s = map (getPosition_frame device) (map fst served @ [channel])))"
proof -
  let ?rt = "if t = 0 then 100 else t"
  let ?f = "getPosition_frame device"
  let ?idle = "idle_state ?rt (length served) 1 (map ?f (map fst served)) (map ?f (map fst served)) []"
  have all: "run (Call (GetMultiplePositions device (map fst served)) # answers served) (Master t True)
      = resume (Caller 0) (Inr (JObject (collected served []))) ?idle"
    using served_rounds [of served device "[]" "[]" "Caller 0" ?rt 0 1 "[]" "[]" "[]"]
    by (simp add: run_Cons call_getMultiplePositions react_def del: step.simps)
  have part: "run (Call (GetMultiplePositions device (map fst served @ channel # rest)) # answers served)
                (Master t True)
      = react (getMultiplePositions_from device (channel # rest) (collected served []) (Caller 0) ?idle)"
    using served_rounds [of served device "channel # rest" "[]" "Caller 0" ?rt 0 1 "[]" "[]" "[]"]
    by (simp add: run_Cons call_getMultiplePositions del: step.simps getMultiplePositions_from.simps)
  have a: "settled (resume (Caller 0) (Inr (JObject (collected served []))) ?idle)
             = [(0, Inr (JObject (collected served [])))] \<and>
           written (resume (Caller 0) (Inr (JObject (collected served []))) ?idle)
             = map ?f (map fst served)"
    by (simp add: idle_state_def)
  have b: "settled (react (getMultiplePositions_from device (channel # rest) (collected served []) (Caller 0) ?idle)) = [] \<and>
           written (react (getMultiplePositions_from device (channel # rest) (collected served []) (Caller 0) ?idle))
             = map ?f (map fst served @ [channel]) \<and>
           map frame (pendingWrites (react (getMultiplePositions_from device (channel # rest) (collected served []) (Caller 0) ?idle)))
             = [?f channel]"
    unfolding await_state by (simp add: idle_state_def)
  have c: "list_all (\<lambda>e. \<not> is_call e) later \<Longrightarrow>
      settled (run (Call (GetMultiplePositions device (map fst served @ channel # rest)) # answers served
                      @ [WriteDone (Some m)] @ later) (Master t True))
        = [(0, Inl (GetPositionFailed device channel (WriteError m)))] \<and>
      written (run (Call (GetMultiplePositions device (map fst served @ channel # rest)) # answers served
                      @ [WriteDone (Some m)] @ later) (Master t True))
        = map ?f (map fst served @ [channel])"
  proof -
    assume l: "list_all (\<lambda>e. \<not> is_call e) later"
    have "run (Call (GetMultiplePositions device (map fst served @ channel # rest)) # answers served
                      @ [WriteDone (Some m)] @ later) (Master t True)
          = run later (step (WriteDone (Some m))
              (react (getMultiplePositions_from device (channel # rest) (collected served []) (Caller 0) ?idle)))"
      using part by (simp only: run_append append_Cons [symmetric] run_Cons) (simp add: run_def)
    then show ?thesis
      using quiet_run [OF quiet_idle_state l]
      by (simp add: write_fails del: step.simps getMultiplePositions_from.simps) (simp add: idle_state_def)
  qed
  have d: "list_all (\<lambda>e. \<not> is_call e) later \<Longrightarrow>
      settled (run (Call (GetMultiplePositions device (map fst served @ channel # rest)) # answers served
                      @ [WriteDone None, Timeout (length served)] @ later) (Master t True))
        = [(0, Inl (GetPositionFailed device channel ResponseTimeout))] \<and>
      written (run (Call (GetMultiplePositions device (map fst served @ channel # rest)) # answers served
                      @ [WriteDone None, Timeout (length served)] @ later) (Master t True))
        = map ?f (map fst served @ [channel])"
  proof -
    assume l: "list_all (\<lambda>e. \<not> is_call e) later"
    have "run (Call (GetMultiplePositions device (map fst served @ channel # rest)) # answers served
                      @ [WriteDone None, Timeout (length served)] @ later) (Master t True)
          = run later (step (Timeout (length served)) (step (WriteDone None)
              (react (getMultiplePositions_from device (channel # rest) (collected served []) (Caller 0) ?idle))))"
      using part by (simp only: run_append append_Cons [symmetric] run_Cons) (simp add: run_def)
    then show ?thesis
      using quiet_run [OF quiet_idle_state l]
      by (simp add: response_times_out del: step.simps getMultiplePositions_from.simps) (simp add: idle_state_def)
  qed
  have e: "distinct (map fst served) \<longrightarrow>
      collected served [] = map (\<lambda>(c, b0, b1). (c, JNum (position [b0, b1]))) served"
    using collected_distinct [of served "[]"] by simp
  show ?thesis
    unfolding Let_def all part using a b c d e by blast
qed

theorem C6_witness:
  "list_all (\<lambda>e. \<not> is_call e) [Data [0x01], WriteDone None] \<and>
   (let s = run [Call (GetMultiplePositions 5 [0, 1, 2]), WriteDone None, Data [0x10, 0x17],
                 WriteDone None, Timeout 1, Data [0x01], WriteDone None] (Master 50 True)
    in settled s = [(0, Inl (GetPositionFailed 5 1 ResponseTimeout))] \<and>
       written s = [getPosition_frame 5 0, getPosition_frame 5 1])"
  using C6_getMultiplePositions_sequential [of 5 "[(0, 0x10, 0x17)]" 50 1 "[2]" "[Data [0x01], WriteDone None]"]
  by (simp add: Let_def)

text \<open>
  C7, as amended. An operation called while the port is not open settles within the
  call and leaves the request queue, the handler list, the frame buffer, the outstanding
  writes and the timers as they were. It is rejected with the closed-port error, except
  \<open>getMultiplePositions\<close>: with a first channel it is rejected with the failure of that
  channel (wrapping the closed-port error), and with no channel it resolves with the
  empty result.
\<close>

theorem C7_closed_port:
  assumes "\<not> isOpen s"
  shows "step (Call op) s =
           s\<lparr> nextOp := nextOp s + 1,
              settled := settled s @ [(nextOp s, closed_result op)] \<rparr>"
proof (cases op)
  case (GetMultiplePositions device channels)
  then show ?thesis
    using assms by (cases channels) (simp_all add: engine_defs resume_Inl)
qed (use assms in \<open>simp_all add: engine_defs resume_Inl\<close>)

theorem C7_closed_port_witness:
  "\<not> isOpen (Master 0 False) \<and>
   step (Call (GetPosition 12 0)) (Master 0 False) =
     (Master 0 False)\<lparr> nextOp := 1, settled := [(0, Inl SerialPortClosed)] \<rparr>"
  using C7_closed_port [of "Master 0 False" "GetPosition 12 0"]
  by (simp add: Master_def)

text \<open>
  C7 as stated fails: \<open>getMultiplePositions\<close> with an empty channel list on a closed port
  does not fail, it resolves.
\<close>

theorem C7_counterexample:
  "\<not> isOpen (Master 0 False) \<and>
   settled (step (Call (GetMultiplePositions 5 [])) (Master 0 False)) = [(0, Inr (JObject []))]"
  by (simp add: engine_defs)

text \<open>
  C8. For every position \<open>p\<close> from 0 to 65535, the two response bytes \<open>p & 0xFF\<close> and
  \<open>p >> 8\<close> decode to \<open>p\<close>; a handler of \<open>getPosition\<close> that is called with these two
  bytes as its response frame resolves its promise with exactly \<open>p\<close>, in any state; and a
  \<open>getPosition\<close> on a freshly constructed engine with an open port, whose write succeeds
  and which then receives these two bytes, resolves with exactly \<open>p\<close>.
\<close>

theorem C8_getPosition_resolves_with_position:
  assumes "0 \<le> p" "p \<le> 65535"
  shows "position [word_of_int (p AND 0xFF), word_of_int (drop_bit 8 p)] = p \<and>
         responseHandler_callback h
             (Inr [word_of_int (p AND 0xFF), word_of_int (drop_bit 8 p)]) s
           = Settle (done_cb h) (Inr (JNum p)) (complete s) \<and>
         settled (run [Call (GetPosition device channel), WriteDone None,
                       Data [word_of_int (p AND 0xFF), word_of_int (drop_bit 8 p)]]
                    (Master t True))
           = [(0, Inr (JNum p))]"
  using position_decode [OF assms] by (simp add: engine_defs)

theorem C8_witness:
  "position [0x10, 0x17] = 5904 \<and>
   settled (run [Call (GetPosition 12 0), WriteDone None, Data [0x10, 0x17]] (Master 0 True))
     = [(0, Inr (JNum 5904))]"
  using C8_getPosition_resolves_with_position [of 5904 _ _ 12 0 0] by simp

text \<open>
  C9. In any state, when a delivery gives the head handler the bytes it waits for, the
  handler is removed; if no handler is left, the frame buffer is empty afterwards, so
  every leftover byte is discarded (with a handler left, the leftover bytes stay).
\<close>

theorem C9_leftover_bytes_discarded:
  assumes "responseHandlers s = h # rest"
    and "responseLength h \<le> length (responseBuffer s @ bytes)"
  shows "responseHandlers (step (Data bytes) s) = rest \<and>
         responseBuffer (step (Data bytes) s) =
           (if rest = [] then [] else drop (responseLength h) (responseBuffer s @ bytes))"
  using assms
  by (simp add: onSerialPortData_def responseHandler_callback_def Let_def push_def shiftBuffer_def
        skipLeftover_def skip_def resume_frame complete_frame)

theorem C9_witness:
  "responseHandlers (run [Call (GetPosition 12 0), WriteDone None] (Master 0 True))
     = [\<lparr> hid = 0, responseLength = 2, done_cb = Caller 0 \<rparr>] \<and>
   responseBuffer (step (Data [0x10, 0x17, 0x99])
                     (run [Call (GetPosition 12 0), WriteDone None] (Master 0 True))) = []"
  using C9_leftover_bytes_discarded [of "run [Call (GetPosition 12 0), WriteDone None] (Master 0 True)"
               "\<lparr> hid = 0, responseLength = 2, done_cb = Caller 0 \<rparr>" "[]" "[0x10, 0x17, 0x99]"]
  by (simp add: engine_defs)

text \<open>
  C10. Data delivered while the handler list is empty changes nothing: the state after
  the delivery is the state before it, and so is every later state.
\<close>

theorem C10_data_without_handler_dropped:
  assumes "responseHandlers s = []"
  shows "step (Data bytes) s = s \<and> run (Data bytes # events) s = run events s"
  using assms by (simp add: onSerialPortData_def run_def)

theorem C10_witness:
  "responseHandlers (Master 0 True) = [] \<and>
   step (Data [0x10, 0x17]) (Master 0 True) = Master 0 True \<and>
   run [Data [0x10, 0x17], Call (GetPosition 12 0), WriteDone None, Data [0x01]] (Master 0 True)
     = run [Call (GetPosition 12 0), WriteDone None, Data [0x01]] (Master 0 True)"
  using C10_data_without_handler_dropped
          [of "Master 0 True" "[0x10, 0x17]" "[Call (GetPosition 12 0), WriteDone None, Data [0x01]]"]
  by (simp add: Master_def)

end
